theory Spec2Isabelle
  imports
    Main
    "HOL-Library.Word"
    "HOL-Library.AList"
    "HOL-Library.Char_ord"
    "HOL-Library.List_Lexorder"
begin

section \<open>Data model\<close>

text \<open>
  The notebook works on two-dimensional numpy arrays.  An array of shape \<open>(n, m)\<close> is a
  record of its column count \<open>m\<close> and its \<open>n\<close> rows; the column count is a field of its
  own because an array of shape \<open>(0, m)\<close> has no row to read it from.  Exceptions are
  values of the type \<open>error\<close>, and a call that may raise returns \<open>error + 'a\<close>.
\<close>

datatype error = IndexError | ValueError | TypeError | AttributeError | KeyError

record 'a ndarray =
  shape1 :: nat
  rows :: "'a list list"

definition shape0 :: "'a ndarray \<Rightarrow> nat" where
  "shape0 X = length (rows X)"


text \<open>\<open>X.size\<close>: the number of entries.\<close>

definition size_of :: "'a ndarray \<Rightarrow> nat" where
  "size_of X = shape0 X * shape1 X"

text \<open>\<open>X[:, c]\<close> for \<open>c\<close> taken from \<open>range(X.shape[1])\<close>.\<close>

definition column :: "'a ndarray \<Rightarrow> nat \<Rightarrow> 'a list" where
  "column X c = map (\<lambda>r. r ! c) (rows X)"

text \<open>An entry of a cell of the census table: pandas reads a number or a string.\<close>

datatype cell = Num int | Str string

type_synonym int8 = "8 word"

section \<open>Library functions the notebook calls\<close>

text \<open>
  \<open>np.unique(Y)\<close> on a one-dimensional array: numpy sorts a copy and keeps every element
  that differs from its predecessor.
\<close>

definition np_unique :: "'a::linorder list \<Rightarrow> 'a list" where
  "np_unique Y = remdups_adj (sort Y)"

text \<open>
  A Python dict is an association list in insertion order with distinct keys:
  \<open>d[k] = v\<close> is \<open>AList.update k v d\<close> (replace in place, or append), \<open>k in d\<close> and
  \<open>d[k]\<close> read \<open>map_of d k\<close>, and \<open>len(d)\<close> is the length of the list.
\<close>

type_synonym ('k, 'v) dict = "('k \<times> 'v) list"

definition dict_contains :: "('k, 'v) dict \<Rightarrow> 'k \<Rightarrow> bool" where
  "dict_contains d k = (map_of d k \<noteq> None)"

text \<open>The comprehension \<open>{v: i for i, v in ivs}\<close>: one store per pair, in order.\<close>

definition dict_comp :: "(nat \<times> 'k) list \<Rightarrow> ('k, nat) dict" where
  "dict_comp ivs = foldl (\<lambda>d (i, v). AList.update v i d) [] ivs"

section \<open>SimpleOneHotEncoder.fit\<close>

text \<open>
  The encoder object has one attribute, \<open>values\<close>, which exists only after \<open>fit\<close>:
  \<open>None\<close> is the object before \<open>fit\<close> has set it.
\<close>

record 'a SimpleOneHotEncoder =
  ohe_values :: "('a, nat) dict list option"

text \<open>One pass of the loop body of \<open>fit\<close>: the mapping built for column \<open>c\<close>.\<close>

definition fit_column :: "'a::linorder ndarray \<Rightarrow> nat \<Rightarrow> ('a, nat) dict" where
  "fit_column X c = (let Y = column X c in dict_comp (enumerate 0 (np_unique Y)))"

text \<open>The loop \<open>for c in range(X.shape[1])\<close>, appending to \<open>self.values\<close>.\<close>

fun fit_loop :: "'a::linorder ndarray \<Rightarrow> nat list \<Rightarrow> ('a, nat) dict list \<Rightarrow> ('a, nat) dict list" where
  "fit_loop X [] vals = vals"
| "fit_loop X (c # cs) vals = fit_loop X cs (vals @ [fit_column X c])"

definition SimpleOneHotEncoder_fit ::
  "'a::linorder SimpleOneHotEncoder \<Rightarrow> 'a ndarray \<Rightarrow> 'a SimpleOneHotEncoder" where
  "SimpleOneHotEncoder_fit self X =
     self\<lparr>ohe_values := Some (fit_loop X [0..<shape1 X] [])\<rparr>"

text \<open>The mappings of a fitted encoder (the empty list before \<open>fit\<close>).\<close>

definition fitted_values :: "'a SimpleOneHotEncoder \<Rightarrow> ('a, nat) dict list" where
  "fitted_values self = (case ohe_values self of None \<Rightarrow> [] | Some vs \<Rightarrow> vs)"

section \<open>What the transformers are called with\<close>

text \<open>
  \<open>transform\<close> is called with an array or with a Python list of rows (the notebook's
  \<open>instances\<close>), and starts with \<open>np.array(X)\<close>.
\<close>

datatype array_like = Ndarray "cell ndarray" | PyList "cell list list"

text \<open>
  numpy is a library the notebook calls.  Where its result is not the same in every
  version, or depends on how it infers the element type of a list, the model does not
  fix it: what numpy does there is a parameter, the record \<open>numpy\<close>, whose fields give
  the result of \<open>np.array(X)[:, ps]\<close> and of \<open>np.vectorize(str.strip)(np.array(X))\<close> on
  such an input.
\<close>

record numpy =
  take_rest :: "array_like \<Rightarrow> int list \<Rightarrow> error + cell ndarray"
  strip_rest :: "array_like \<Rightarrow> error + string ndarray"

text \<open>A Python int that fits in 64 bits (numpy's \<open>int64\<close>).\<close>

definition in_int64 :: "int \<Rightarrow> bool" where
  "in_int64 n = (- (2 ^ 63) \<le> n \<and> n < 2 ^ 63)"

fun cell_in_int64 :: "cell \<Rightarrow> bool" where
  "cell_in_int64 (Num n) = in_int64 n"
| "cell_in_int64 (Str s) = True"

fun is_str :: "cell \<Rightarrow> bool" where
  "is_str (Str s) = True"
| "is_str (Num n) = False"

text \<open>\<open>str(n)\<close> of a Python int: decimal digits, with a minus sign when negative.\<close>

fun str_of_nat :: "nat \<Rightarrow> string" where
  "str_of_nat n =
     (if n < 10 then [''0123456789'' ! n]
      else str_of_nat (n div 10) @ [''0123456789'' ! (n mod 10)])"

declare str_of_nat.simps [simp del]

definition str_of_int :: "int \<Rightarrow> string" where
  "str_of_int n = (if n < 0 then CHR ''-'' # str_of_nat (nat (- n)) else str_of_nat (nat n))"

text \<open>
  A numpy array of strings has a fixed width per entry and pads with NUL characters;
  reading an entry drops the trailing NULs, so a string stored in such an array
  comes back without them.
\<close>

definition rstrip_nul :: "string \<Rightarrow> string" where
  "rstrip_nul s = rev (dropWhile (\<lambda>c. c = CHR 0x00) (rev s))"

text \<open>What an entry of a list becomes when numpy makes an array of strings of the list.\<close>

fun np_str :: "cell \<Rightarrow> cell" where
  "np_str (Num n) = Str (str_of_int n)"
| "np_str (Str s) = Str (rstrip_nul s)"

text \<open>
  \<open>np.array(X)\<close>.  Of an array it is a copy.  Of a non-empty list of rows of one length
  whose numbers fit in 64 bits it is the two-dimensional array of the entries when
  all are numbers, and the array of strings of the entries when one of them is a
  string.  On another list (empty, with rows of different lengths, with a larger
  number) the result is left to the parameter: \<open>None\<close>.
\<close>

definition np_array :: "array_like \<Rightarrow> cell ndarray option" where
  "np_array X =
     (case X of
        Ndarray A \<Rightarrow> Some A
      | PyList rs \<Rightarrow>
          if rs \<noteq> [] \<and> list_all (\<lambda>r. length r = length (hd rs)) rs \<and>
             list_all (list_all cell_in_int64) rs
          then Some \<lparr>shape1 = length (hd rs),
                     rows = (if list_ex (list_ex is_str) rs then map (map np_str) rs else rs)\<rparr>
          else None)"

text \<open>Applying a function to every entry of an array.\<close>

definition map_ndarray :: "('a \<Rightarrow> 'b) \<Rightarrow> 'a ndarray \<Rightarrow> 'b ndarray" where
  "map_ndarray f X = \<lparr>shape1 = shape1 X, rows = map (map f) (rows X)\<rparr>"

text \<open>Applying a function that may raise to every element, left to right.\<close>

fun map_result :: "('a \<Rightarrow> error + 'b) \<Rightarrow> 'a list \<Rightarrow> error + 'b list" where
  "map_result f [] = Inr []"
| "map_result f (x # xs) =
     (case f x of
        Inl e \<Rightarrow> Inl e
      | Inr y \<Rightarrow> (case map_result f xs of Inl e \<Rightarrow> Inl e | Inr ys \<Rightarrow> Inr (y # ys)))"

section \<open>PositionalSelector\<close>

record PositionalSelector =
  positions :: "int list"


text \<open>
  The positions numpy accepts on an axis of length \<open>m\<close> are \<open>-m \<le> p < m\<close>, and a
  negative one counts from the end.
\<close>

definition valid_position :: "nat \<Rightarrow> int \<Rightarrow> bool" where
  "valid_position m p = (- int m \<le> p \<and> p < int m)"

definition position_index :: "nat \<Rightarrow> int \<Rightarrow> nat" where
  "position_index m p = (if p < 0 then nat (int m + p) else nat p)"

text \<open>
  \<open>A[:, ps]\<close> for the array \<open>A = np.array(X)\<close> and a list of positions \<open>ps\<close>.  When every
  position is valid the result is a new array, one column per position.  When one is
  not, all fit in 64 bits and \<open>A\<close> has a row, numpy's bounds check raises IndexError.
  Otherwise (a position beyond 64 bits, which numpy may wrap around or refuse, or no
  row to check against) the result is left to the parameter.
\<close>

definition take_columns :: "numpy \<Rightarrow> array_like \<Rightarrow> cell ndarray \<Rightarrow> int list \<Rightarrow> error + cell ndarray" where
  "take_columns np X A ps =
     (if list_all (valid_position (shape1 A)) ps
      then Inr \<lparr>shape1 = length ps,
                rows = map (\<lambda>r. map (\<lambda>p. r ! position_index (shape1 A) p) ps) (rows A)\<rparr>
      else if list_all in_int64 ps \<and> 0 < shape0 A then Inl IndexError
      else take_rest np X ps)"

text \<open>
  A method returns the object it was called on next to its result, so that what it
  does to the object's attributes is part of its value.
\<close>

definition PositionalSelector_transform ::
  "numpy \<Rightarrow> PositionalSelector \<Rightarrow> array_like \<Rightarrow> PositionalSelector \<times> (error + cell ndarray)" where
  "PositionalSelector_transform np self X =
     (self,
      case np_array X of
        None \<Rightarrow> take_rest np X (positions self)
      | Some A \<Rightarrow> take_columns np X A (positions self))"

section \<open>StripString\<close>

text \<open>The object has no attribute of its own.\<close>

datatype StripString = StripString


text \<open>
  \<open>str.isspace\<close> on one character.  A \<open>char\<close> is a code point below 256; in that range
  Python takes as whitespace the code points 9 to 13, 28 to 32, 133 and 160.
\<close>

definition py_isspace :: "char \<Rightarrow> bool" where
  "py_isspace ch = ((of_char ch :: nat) \<in> {9, 10, 11, 12, 13, 28, 29, 30, 31, 32, 133, 160})"

definition str_strip :: "string \<Rightarrow> string" where
  "str_strip s = rev (dropWhile py_isspace (rev (dropWhile py_isspace s)))"

text \<open>\<open>str.strip(x)\<close>: the unbound method raises TypeError on anything but a \<open>str\<close>.\<close>

fun str_strip_cell :: "cell \<Rightarrow> error + string" where
  "str_strip_cell (Str s) = Inr (str_strip s)"
| "str_strip_cell (Num n) = Inl TypeError"

text \<open>
  \<open>np.vectorize(f)(A)\<close> without \<open>otypes\<close>, for an \<open>f\<close> that returns strings: numpy calls
  \<open>f\<close> on the first entry to find the output type, and so raises ValueError on an
  array with no entry; otherwise it applies \<open>f\<close> to every entry and stores the results
  in an array of strings, which drops their trailing NULs.
\<close>

definition np_vectorize :: "('a \<Rightarrow> error + string) \<Rightarrow> 'a ndarray \<Rightarrow> error + string ndarray" where
  "np_vectorize f A =
     (if size_of A = 0 then Inl ValueError
      else case map_result (map_result f) (rows A) of
             Inl e \<Rightarrow> Inl e
           | Inr rs \<Rightarrow> Inr \<lparr>shape1 = shape1 A, rows = map (map rstrip_nul) rs\<rparr>)"

definition StripString_transform ::
  "numpy \<Rightarrow> StripString \<Rightarrow> array_like \<Rightarrow> StripString \<times> (error + string ndarray)" where
  "StripString_transform np self X =
     (let strip = np_vectorize str_strip_cell
      in (self, case np_array X of None \<Rightarrow> strip_rest np X | Some A \<Rightarrow> strip A))"

section \<open>SimpleOneHotEncoder.transform\<close>

text \<open>\<open>np.zeros(shape=(n, w), dtype=np.int8)\<close>.\<close>

definition np_zeros :: "nat \<Rightarrow> nat \<Rightarrow> int8 ndarray" where
  "np_zeros n w = \<lparr>shape1 = w, rows = replicate n (replicate w 0)\<rparr>"

text \<open>\<open>M[i][j] = v\<close>, in place: the model returns the array after the store.\<close>

definition setitem2 :: "'b ndarray \<Rightarrow> nat \<Rightarrow> nat \<Rightarrow> 'b \<Rightarrow> error + 'b ndarray" where
  "setitem2 M i j v =
     (if i < shape0 M \<and> j < shape1 M
      then Inr (M\<lparr>rows := (rows M)[i := (rows M ! i)[j := v]]\<rparr>)
      else Inl IndexError)"

text \<open>\<open>np.concatenate(Ms, axis=1)\<close>: at least one array, all with the same row count.\<close>

definition np_concatenate_axis1 :: "'b ndarray list \<Rightarrow> error + 'b ndarray" where
  "np_concatenate_axis1 Ms =
     (case Ms of
        [] \<Rightarrow> Inl ValueError
      | M # Ms' \<Rightarrow>
          if list_all (\<lambda>M'. shape0 M' = shape0 M) Ms'
          then Inr \<lparr>shape1 = sum_list (map shape1 Ms),
                    rows = map (\<lambda>i. concat (map (\<lambda>M'. rows M' ! i) Ms)) [0..<shape0 M]\<rparr>
          else Inl ValueError)"

text \<open>Reading \<open>self.values\<close>, and \<open>vs[c]\<close> for \<open>c\<close> from a \<open>range\<close>.\<close>

definition getattr_values :: "'a SimpleOneHotEncoder \<Rightarrow> error + ('a, nat) dict list" where
  "getattr_values self = (case ohe_values self of None \<Rightarrow> Inl AttributeError | Some vs \<Rightarrow> Inr vs)"

definition list_getitem :: "'b list \<Rightarrow> nat \<Rightarrow> error + 'b" where
  "list_getitem xs c = (if c < length xs then Inr (xs ! c) else Inl IndexError)"

text \<open>The inner loop \<open>for i, x in enumerate(Y)\<close> over one column, storing into \<open>matrix\<close>.\<close>

fun mark_rows :: "('a, nat) dict \<Rightarrow> (nat \<times> 'a) list \<Rightarrow> int8 ndarray \<Rightarrow> error + int8 ndarray" where
  "mark_rows d [] matrix = Inr matrix"
| "mark_rows d ((i, x) # ixs) matrix =
     (if dict_contains d x
      then (case setitem2 matrix i (the (map_of d x)) 1 of
              Inl e \<Rightarrow> Inl e
            | Inr matrix' \<Rightarrow> mark_rows d ixs matrix')
      else mark_rows d ixs matrix)"

text \<open>The body of the loop over the columns: the matrix of column \<open>c\<close>.\<close>

definition encode_column :: "'a SimpleOneHotEncoder \<Rightarrow> 'a ndarray \<Rightarrow> nat \<Rightarrow> error + int8 ndarray" where
  "encode_column self X c =
     (let Y = column X c
      in case getattr_values self of
           Inl e \<Rightarrow> Inl e
         | Inr vs \<Rightarrow>
             (case list_getitem vs c of
                Inl e \<Rightarrow> Inl e
              | Inr d \<Rightarrow> mark_rows d (enumerate 0 Y) (np_zeros (length Y) (length d))))"

fun transform_loop ::
  "'a SimpleOneHotEncoder \<Rightarrow> 'a ndarray \<Rightarrow> nat list \<Rightarrow> int8 ndarray list \<Rightarrow> error + int8 ndarray list" where
  "transform_loop self X [] matrices = Inr matrices"
| "transform_loop self X (c # cs) matrices =
     (case encode_column self X c of
        Inl e \<Rightarrow> Inl e
      | Inr matrix \<Rightarrow> transform_loop self X cs (matrices @ [matrix]))"

definition SimpleOneHotEncoder_transform ::
  "'a SimpleOneHotEncoder \<Rightarrow> 'a ndarray \<Rightarrow> 'a SimpleOneHotEncoder \<times> (error + int8 ndarray)" where
  "SimpleOneHotEncoder_transform self X =
     (self,
      case transform_loop self X [0..<shape1 X] [] of
        Inl e \<Rightarrow> Inl e
      | Inr matrices \<Rightarrow> np_concatenate_axis1 matrices)"







section \<open>Notions the claims are stated with\<close>

text \<open>Calling a method on one input after another; the object after the last call.\<close>

fun call_many :: "('s \<Rightarrow> 'x \<Rightarrow> 's \<times> 'r) \<Rightarrow> 's \<Rightarrow> 'x list \<Rightarrow> 's" where
  "call_many m self [] = self"
| "call_many m self (X # Xs) = call_many m (fst (m self X)) Xs"

section \<open>Loading the data and the labels\<close>

definition COLUMNS :: "string list" where
  "COLUMNS =
     [''age'', ''workclass'', ''fnlwgt'', ''education'', ''education-num'', ''marital-status'',
      ''occupation'', ''relationship'', ''race'', ''sex'', ''capital-gain'', ''capital-loss'',
      ''hours-per-week'', ''native-country'', ''income-level'']"

text \<open>
  A pandas DataFrame: its column labels and its rows, one cell per label.
  \<open>pd.read_csv(train_data, header=None, names=COLUMNS)\<close> gives the frame of the
  records of the file under the labels \<open>COLUMNS\<close>; reading and parsing the file is
  pandas' and is not modelled, the records are the input.
\<close>

record DataFrame =
  df_columns :: "string list"
  df_rows :: "cell list list"

definition raw_training_data :: "cell list list \<Rightarrow> DataFrame" where
  "raw_training_data records = \<lparr>df_columns = COLUMNS, df_rows = records\<rparr>"

text \<open>The position of a label among the column labels, if it is one.\<close>

fun index_of :: "'a \<Rightarrow> 'a list \<Rightarrow> nat option" where
  "index_of x [] = None"
| "index_of x (y # ys) = (if x = y then Some 0 else map_option Suc (index_of x ys))"

text \<open>\<open>df[name]\<close>: the column under the label, or KeyError.\<close>

definition df_getitem :: "DataFrame \<Rightarrow> string \<Rightarrow> error + cell list" where
  "df_getitem df name =
     (case index_of name (df_columns df) of
        None \<Rightarrow> Inl KeyError
      | Some k \<Rightarrow> Inr (map (\<lambda>r. r ! k) (df_rows df)))"

text \<open>\<open>df.drop(name, axis=1).values\<close>: the array of the frame without that column.\<close>

definition df_drop_values :: "DataFrame \<Rightarrow> string \<Rightarrow> error + cell ndarray" where
  "df_drop_values df name =
     (case index_of name (df_columns df) of
        None \<Rightarrow> Inl KeyError
      | Some k \<Rightarrow> Inr \<lparr>shape1 = length (df_columns df) - 1,
                        rows = map (\<lambda>r. take k r @ drop (Suc k) r) (df_rows df)\<rparr>)"

definition raw_features :: "cell list list \<Rightarrow> error + cell ndarray" where
  "raw_features records = df_drop_values (raw_training_data records) ''income-level''"

text \<open>\<open>(raw_training_data['income-level'] == ' >50K').values\<close>: equality, entry by entry.\<close>

definition train_labels :: "cell list list \<Rightarrow> error + bool list" where
  "train_labels records =
     (case df_getitem (raw_training_data records) ''income-level'' of
        Inl e \<Rightarrow> Inl e
      | Inr col \<Rightarrow> Inr (map (\<lambda>v. v = Str '' >50K'') col))"

section \<open>The pipeline\<close>


























text \<open>
  An example of the parameter \<open>numpy\<close>, to run the transformers on examples: a numpy
  that raises wherever the model leaves its result open.
\<close>

definition numpy_that_raises :: numpy where
  "numpy_that_raises =
     \<lparr>take_rest = (\<lambda>X ps. Inl IndexError), strip_rest = (\<lambda>X. Inl ValueError)\<rparr>"

section \<open>Properties of fit\<close>

lemma update_absent_appends:
  "k \<notin> fst ` set d \<Longrightarrow> AList.update k v d = d @ [(k, v)]"
  by (induction d) auto

lemma dict_store_distinct_keys:
  "distinct (map snd ivs) \<Longrightarrow> fst ` set d \<inter> snd ` set ivs = {} \<Longrightarrow>
   foldl (\<lambda>d (i, v). AList.update v i d) d ivs = d @ map (\<lambda>(i, v). (v, i)) ivs"
proof (induction ivs arbitrary: d)
  case Nil
  then show ?case by simp
next
  case (Cons p ivs)
  obtain i v where p: "p = (i, v)" by (cases p)
  from Cons.prems p have absent: "v \<notin> fst ` set d" by auto
  have step: "AList.update v i d = d @ [(v, i)]"
    using absent by (rule update_absent_appends)
  have disj: "fst ` set (d @ [(v, i)]) \<inter> snd ` set ivs = {}"
    using Cons.prems p by auto
  have dist: "distinct (map snd ivs)" using Cons.prems by simp
  show ?case
    using Cons.IH [OF dist disj] by (simp add: p step)
qed

lemma map_swap_enumerate:
  "map (\<lambda>(i, v). (v, i)) (enumerate n us) = zip us [n..<n + length us]"
  unfolding enumerate_eq_zip by (rule zip_commute [symmetric])

lemma dict_comp_distinct:
  assumes "distinct us"
  shows "dict_comp (enumerate 0 us) = zip us [0..<length us]"
proof -
  have "distinct (map snd (enumerate 0 us))" using assms by simp
  then have "foldl (\<lambda>d (i, v). AList.update v i d) [] (enumerate 0 us)
             = [] @ map (\<lambda>(i, v). (v, i)) (enumerate 0 us)"
    by (rule dict_store_distinct_keys) simp
  then show ?thesis
    by (simp add: dict_comp_def map_swap_enumerate)
qed

lemma np_unique_sorted: "sorted (np_unique Y)"
  by (simp add: np_unique_def sorted_remdups_adj)

lemma sorted_remdups_adj_distinct: "sorted xs \<Longrightarrow> distinct (remdups_adj xs)"
  by (induction xs rule: remdups_adj.induct) auto

lemma np_unique_distinct: "distinct (np_unique Y)"
  by (simp add: np_unique_def sorted_remdups_adj_distinct)

lemma np_unique_set: "set (np_unique Y) = set Y"
  by (simp add: np_unique_def)

lemma np_unique_length: "length (np_unique Y) = card (set Y)"
  using distinct_card [OF np_unique_distinct, of Y] by (simp add: np_unique_set)

lemma fit_column_zip:
  "fit_column X c = zip (np_unique (column X c)) [0..<card (set (column X c))]"
  by (simp add: fit_column_def Let_def dict_comp_distinct np_unique_distinct np_unique_length)

lemma fit_loop_map: "fit_loop X cs vals = vals @ map (fit_column X) cs"
  by (induction cs arbitrary: vals) simp_all

lemma fitted_values_fit:
  "fitted_values (SimpleOneHotEncoder_fit self X) = map (fit_column X) [0..<shape1 X]"
  by (simp add: fitted_values_def SimpleOneHotEncoder_fit_def fit_loop_map)

lemma fit_column_keys: "map fst (fit_column X c) = np_unique (column X c)"
  by (simp add: fit_column_zip np_unique_length)

lemma fit_column_indices: "map snd (fit_column X c) = [0..<card (set (column X c))]"
  by (simp add: fit_column_zip np_unique_length)

lemma fit_column_length: "length (fit_column X c) = card (set (column X c))"
  by (simp add: fit_column_zip np_unique_length)


section \<open>The encoder's transform in closed form\<close>
















section \<open>Facts about a fitted encoder\<close>

lemma ohe_values_fit:
  "ohe_values (SimpleOneHotEncoder_fit self X) = Some (map (fit_column X) [0..<shape1 X])"
  by (simp add: SimpleOneHotEncoder_fit_def fit_loop_map)


lemma sorted_distinct_rank:
  assumes "sorted us" and "distinct us" and "i < length us"
  shows "card {u \<in> set us. u < us ! i} = i"
proof -
  have "{u \<in> set us. u < us ! i} = set (take i us)"
  proof (intro equalityI subsetI)
    fix u assume "u \<in> {u \<in> set us. u < us ! i}"
    then obtain j where j: "j < length us" "us ! j = u" and less: "u < us ! i"
      by (auto simp: in_set_conv_nth)
    have "j < i"
    proof (rule ccontr)
      assume "\<not> j < i"
      then have "us ! i \<le> us ! j"
        using assms(1) j(1) by (intro sorted_nth_mono) simp_all
      then show False using less j(2) by simp
    qed
    then show "u \<in> set (take i us)"
      using j assms(3) by (auto simp: in_set_conv_nth)
  next
    fix u assume "u \<in> set (take i us)"
    then obtain j where j: "j < i" "us ! j = u"
      using assms(3) by (auto simp: in_set_conv_nth)
    have "us ! j \<le> us ! i"
      using assms(1,3) j(1) by (intro sorted_nth_mono) simp_all
    moreover have "us ! j \<noteq> us ! i"
      using assms(2,3) j(1) by (simp add: nth_eq_iff_index_eq)
    ultimately show "u \<in> {u \<in> set us. u < us ! i}"
      using j assms(3) by auto
  qed
  then show ?thesis
    using assms(2,3) by (simp add: distinct_card)
qed

lemma fit_column_lookup:
  assumes "v \<in> set (column X c)"
  shows "map_of (fit_column X c) v = Some (card {u \<in> set (column X c). u < v})"
proof -
  let ?us = "np_unique (column X c)"
  from assms have "v \<in> set ?us" by (simp add: np_unique_set)
  then obtain i where i: "i < length ?us" "?us ! i = v"
    by (auto simp: in_set_conv_nth)
  have "map_of (zip ?us [0..<length ?us]) (?us ! i) = Some ([0..<length ?us] ! i)"
    using i(1) by (intro map_of_zip_nth) (simp_all add: np_unique_distinct)
  then have "map_of (fit_column X c) v = Some i"
    using i by (simp add: fit_column_zip np_unique_length)
  moreover have "card {u \<in> set ?us. u < ?us ! i} = i"
    using np_unique_sorted np_unique_distinct i(1) by (rule sorted_distinct_rank)
  ultimately show ?thesis
    using i(2) by (simp add: np_unique_set)
qed


section \<open>Blocks of an output row\<close>











section \<open>The claims about SimpleOneHotEncoder\<close>

text \<open>
  C2: after \<open>fit(X)\<close>, \<open>self.values\<close> has one entry per column of \<open>X\<close>; entry \<open>c\<close> is a
  mapping (its keys are distinct) whose keys are exactly the values that occur in column
  \<open>c\<close>, and whose values are distinct and are exactly the indices from 0 to the number
  of distinct values of the column minus 1.
\<close>

theorem fit_builds_one_mapping_per_column:
  "\<exists>vs. ohe_values (SimpleOneHotEncoder_fit self X) = Some vs \<and> length vs = shape1 X \<and>
     (\<forall>c < shape1 X.
        distinct (map fst (vs ! c)) \<and> set (map fst (vs ! c)) = set (column X c) \<and>
        distinct (map snd (vs ! c)) \<and>
        set (map snd (vs ! c)) = {0..<card (set (column X c))})"
proof (intro exI conjI allI impI)
  show "ohe_values (SimpleOneHotEncoder_fit self X) = Some (map (fit_column X) [0..<shape1 X])"
    by (rule ohe_values_fit)
  show "length (map (fit_column X) [0..<shape1 X]) = shape1 X" by simp
next
  fix c assume c: "c < shape1 X"
  then have at_c: "map (fit_column X) [0..<shape1 X] ! c = fit_column X c" by simp
  show "distinct (map fst (map (fit_column X) [0..<shape1 X] ! c))"
    unfolding at_c by (simp add: fit_column_keys np_unique_distinct)
  show "set (map fst (map (fit_column X) [0..<shape1 X] ! c)) = set (column X c)"
    unfolding at_c by (simp add: fit_column_keys np_unique_set)
  show "distinct (map snd (map (fit_column X) [0..<shape1 X] ! c))"
    unfolding at_c by (simp add: fit_column_indices)
  show "set (map snd (map (fit_column X) [0..<shape1 X] ! c)) = {0..<card (set (column X c))}"
    unfolding at_c by (simp add: fit_column_indices)
qed

theorem fit_builds_one_mapping_per_column_witness:
  "(0::nat) < shape1 \<lparr>shape1 = 2, rows = [[''b'', ''x''], [''a'', ''x''], [''b'', ''y'']]\<rparr> \<and>
   (\<exists>vs. ohe_values (SimpleOneHotEncoder_fit \<lparr>ohe_values = None\<rparr>
              \<lparr>shape1 = 2, rows = [[''b'', ''x''], [''a'', ''x''], [''b'', ''y'']]\<rparr>) = Some vs \<and>
          length vs = 2 \<and>
          set (map fst (vs ! 0)) = {''a'', ''b''} \<and>
          distinct (map snd (vs ! 0)) \<and>
          set (map snd (vs ! 0)) = {0..<2})"
proof -
  let ?X = "\<lparr>shape1 = 2, rows = [[''b'', ''x''], [''a'', ''x''], [''b'', ''y'']]\<rparr>"
  have col: "set (column ?X 0) = {''a'', ''b''}" by (auto simp: column_def)
  have two: "card {''a'', ''b''} = 2" by simp
  obtain vs where vs: "ohe_values (SimpleOneHotEncoder_fit \<lparr>ohe_values = None\<rparr> ?X) = Some vs"
      "length vs = shape1 ?X"
      "\<forall>c < shape1 ?X. distinct (map fst (vs ! c)) \<and> set (map fst (vs ! c)) = set (column ?X c) \<and>
          distinct (map snd (vs ! c)) \<and> set (map snd (vs ! c)) = {0..<card (set (column ?X c))}"
    using fit_builds_one_mapping_per_column [of "\<lparr>ohe_values = None\<rparr>" ?X] by blast
  have "(0::nat) < shape1 ?X" by simp
  with vs(3) have "set (map fst (vs ! 0)) = set (column ?X 0)" "distinct (map snd (vs ! 0))"
      "set (map snd (vs ! 0)) = {0..<card (set (column ?X 0))}"
    by blast+
  then show ?thesis
    using vs(1,2) unfolding col two by simp
qed

text \<open>
  C9: \<open>fit\<close> assigns the indices in sorted order of the distinct values: the keys of the
  mapping of column \<open>c\<close> are in ascending order and carry the indices 0, 1, 2, ... in
  that order, so the index of a value \<open>v\<close> of column \<open>c\<close> is the number of distinct
  values of the column that are strictly less than \<open>v\<close>.  Consequently fitting again on
  the same matrix gives the same object, and the mappings do not depend on the object
  that is fitted.
\<close>

theorem fit_indices_follow_sorted_order:
  "(\<forall>c < shape1 X.
      sorted (map fst (fitted_values (SimpleOneHotEncoder_fit self X) ! c)) \<and>
      map snd (fitted_values (SimpleOneHotEncoder_fit self X) ! c)
        = [0..<length (fitted_values (SimpleOneHotEncoder_fit self X) ! c)] \<and>
      (\<forall>v\<in>set (column X c).
         map_of (fitted_values (SimpleOneHotEncoder_fit self X) ! c) v
           = Some (card {u \<in> set (column X c). u < v}))) \<and>
   SimpleOneHotEncoder_fit (SimpleOneHotEncoder_fit self X) X = SimpleOneHotEncoder_fit self X \<and>
   ohe_values (SimpleOneHotEncoder_fit self' X) = ohe_values (SimpleOneHotEncoder_fit self X)"
proof (intro conjI allI impI ballI)
  fix c assume c: "c < shape1 X"
  then have at_c: "fitted_values (SimpleOneHotEncoder_fit self X) ! c = fit_column X c"
    by (simp add: fitted_values_fit)
  show "sorted (map fst (fitted_values (SimpleOneHotEncoder_fit self X) ! c))"
    unfolding at_c by (simp add: fit_column_keys np_unique_sorted)
  show "map snd (fitted_values (SimpleOneHotEncoder_fit self X) ! c)
        = [0..<length (fitted_values (SimpleOneHotEncoder_fit self X) ! c)]"
    unfolding at_c by (simp add: fit_column_indices fit_column_length)
  fix v assume "v \<in> set (column X c)"
  then show "map_of (fitted_values (SimpleOneHotEncoder_fit self X) ! c) v
             = Some (card {u \<in> set (column X c). u < v})"
    unfolding at_c by (rule fit_column_lookup)
next
  show "SimpleOneHotEncoder_fit (SimpleOneHotEncoder_fit self X) X = SimpleOneHotEncoder_fit self X"
    by (simp add: SimpleOneHotEncoder_fit_def)
  show "ohe_values (SimpleOneHotEncoder_fit self' X) = ohe_values (SimpleOneHotEncoder_fit self X)"
    by (simp add: SimpleOneHotEncoder_fit_def)
qed

theorem fit_indices_follow_sorted_order_witness:
  "(0::nat) < shape1 \<lparr>shape1 = 2, rows = [[''b'', ''x''], [''a'', ''x''], [''b'', ''y'']]\<rparr> \<and>
   ''b'' \<in> set (column \<lparr>shape1 = 2, rows = [[''b'', ''x''], [''a'', ''x''], [''b'', ''y'']]\<rparr> 0) \<and>
   map_of (fitted_values (SimpleOneHotEncoder_fit \<lparr>ohe_values = None\<rparr>
             \<lparr>shape1 = 2, rows = [[''b'', ''x''], [''a'', ''x''], [''b'', ''y'']]\<rparr>) ! 0) ''b''
     = Some 1 \<and>
   card {u \<in> set (column \<lparr>shape1 = 2, rows = [[''b'', ''x''], [''a'', ''x''], [''b'', ''y'']]\<rparr> 0).
          u < ''b''} = 1"
proof -
  let ?X = "\<lparr>shape1 = 2, rows = [[''b'', ''x''], [''a'', ''x''], [''b'', ''y'']]\<rparr>"
  let ?e = "\<lparr>ohe_values = None\<rparr> :: string SimpleOneHotEncoder"
  have c: "(0::nat) < shape1 ?X" by simp
  have v: "''b'' \<in> set (column ?X 0)" by (simp add: column_def)
  have run: "map_of (fitted_values (SimpleOneHotEncoder_fit ?e ?X) ! 0) ''b'' = Some 1"
    by code_simp
  have "\<forall>v\<in>set (column ?X 0).
          map_of (fitted_values (SimpleOneHotEncoder_fit ?e ?X) ! 0) v
            = Some (card {u \<in> set (column ?X 0). u < v})"
    using fit_indices_follow_sorted_order [of ?X ?e ?e] c by blast
  with v have "map_of (fitted_values (SimpleOneHotEncoder_fit ?e ?X) ! 0) ''b''
               = Some (card {u \<in> set (column ?X 0). u < ''b''})"
    by blast
  with run have "card {u \<in> set (column ?X 0). u < ''b''} = 1" by simp
  with c v run show ?thesis by blast
qed











section \<open>The transformers keep their state\<close>

lemma call_many_fixed:
  assumes "\<And>self X. fst (m self X) = self"
  shows "call_many m self Xs = self"
  by (induction Xs) (simp_all add: assms)

text \<open>
  C7: \<open>transform\<close> of each of the three transformers returns the object as it was
  called, whether it raises or not; so after any number of calls on any inputs
  \<open>PositionalSelector.positions\<close> and \<open>SimpleOneHotEncoder.values\<close> are what they were.
\<close>

theorem transform_leaves_object_unchanged:
  "fst (PositionalSelector_transform np sel X) = sel \<and>
   fst (StripString_transform np str Y) = str \<and>
   fst (SimpleOneHotEncoder_transform enc Z) = enc \<and>
   positions (call_many (PositionalSelector_transform np) sel Xs) = positions sel \<and>
   call_many (StripString_transform np) str Ys = str \<and>
   ohe_values (call_many SimpleOneHotEncoder_transform enc Zs) = ohe_values enc"
proof (intro conjI)
  show "fst (PositionalSelector_transform np sel X) = sel"
    by (simp add: PositionalSelector_transform_def)
  show "fst (StripString_transform np str Y) = str"
    by (simp add: StripString_transform_def)
  show "fst (SimpleOneHotEncoder_transform enc Z) = enc"
    by (simp add: SimpleOneHotEncoder_transform_def)
  have "call_many (PositionalSelector_transform np) sel Xs = sel"
    by (rule call_many_fixed) (simp add: PositionalSelector_transform_def)
  then show "positions (call_many (PositionalSelector_transform np) sel Xs) = positions sel"
    by simp
  show "call_many (StripString_transform np) str Ys = str"
    by (rule call_many_fixed) (simp add: StripString_transform_def)
  have "call_many SimpleOneHotEncoder_transform enc Zs = enc"
    by (rule call_many_fixed) (simp add: SimpleOneHotEncoder_transform_def)
  then show "ohe_values (call_many SimpleOneHotEncoder_transform enc Zs) = ohe_values enc"
    by simp
qed

section \<open>PositionalSelector\<close>










section \<open>StripString\<close>

lemma str_strip_between_whitespace:
  "\<exists>pre post. s = pre @ str_strip s @ post \<and> list_all py_isspace pre \<and> list_all py_isspace post"
proof -
  let ?m = "dropWhile py_isspace s"
  let ?pre = "takeWhile py_isspace s"
  let ?post = "rev (takeWhile py_isspace (rev ?m))"
  have "?m = rev (takeWhile py_isspace (rev ?m) @ dropWhile py_isspace (rev ?m))"
    by (simp only: takeWhile_dropWhile_id rev_rev_ident)
  also have "\<dots> = str_strip s @ ?post"
    by (simp only: rev_append str_strip_def)
  finally have "?m = str_strip s @ ?post" .
  then have "s = ?pre @ str_strip s @ ?post"
    using takeWhile_dropWhile_id [of py_isspace s] by simp
  moreover have "list_all py_isspace ?pre" "list_all py_isspace ?post"
    by (auto simp: list_all_iff dest: set_takeWhileD)
  ultimately show ?thesis by blast
qed

lemma str_strip_ends:
  assumes "str_strip s \<noteq> []"
  shows "\<not> py_isspace (hd (str_strip s)) \<and> \<not> py_isspace (last (str_strip s))"
proof -
  let ?m = "dropWhile py_isspace s"
  let ?d = "dropWhile py_isspace (rev ?m)"
  have d: "?d \<noteq> []" using assms by (simp add: str_strip_def)
  then have "\<not> py_isspace (hd ?d)" by (rule hd_dropWhile)
  then have last: "\<not> py_isspace (last (str_strip s))"
    using d by (simp add: str_strip_def last_rev)
  have m: "?m \<noteq> []"
  proof
    assume "?m = []"
    then have "?d = []" by (simp only: rev.simps dropWhile.simps)
    with d show False by contradiction
  qed
  then have "\<not> py_isspace (hd ?m)" by (rule hd_dropWhile)
  then have "hd ?m \<in> set (rev ?m)" "\<not> py_isspace (hd ?m)" using m by simp_all
  then have "last ?d = last (rev ?m)" by (rule dropWhile_last)
  then have "hd (str_strip s) = hd ?m"
    using d m by (simp add: str_strip_def hd_rev last_rev)
  with \<open>\<not> py_isspace (hd ?m)\<close> last show ?thesis by simp
qed

lemma rstrip_nul_split:
  "\<exists>nuls. s = rstrip_nul s @ nuls \<and> list_all (\<lambda>c. c = CHR 0x00) nuls"
proof -
  let ?P = "\<lambda>c. c = CHR 0x00"
  let ?nuls = "rev (takeWhile ?P (rev s))"
  have "s = rev (takeWhile ?P (rev s) @ dropWhile ?P (rev s))"
    by (simp only: takeWhile_dropWhile_id rev_rev_ident)
  also have "\<dots> = rstrip_nul s @ ?nuls"
    by (simp only: rev_append rstrip_nul_def)
  finally have "s = rstrip_nul s @ ?nuls" .
  moreover have "list_all ?P ?nuls"
    by (auto simp: list_all_iff dest: set_takeWhileD)
  ultimately show ?thesis by blast
qed

lemma rstrip_nul_last:
  assumes "rstrip_nul s \<noteq> []"
  shows "last (rstrip_nul s) \<noteq> CHR 0x00"
proof -
  let ?d = "dropWhile (\<lambda>c. c = CHR 0x00) (rev s)"
  have d: "?d \<noteq> []" using assms by (simp add: rstrip_nul_def)
  then have "\<not> (hd ?d = CHR 0x00)" by (rule hd_dropWhile)
  then show ?thesis using d by (simp add: rstrip_nul_def last_rev)
qed

text \<open>
  What stripping and storing leaves of a string \<open>s\<close>: \<open>s\<close> is the result between a run
  of whitespace on the left and, on the right, a run of NULs followed by a run of
  whitespace; the result with those NULs neither starts nor ends with whitespace,
  and the result does not end with a NUL.
\<close>

lemma stored_strip_spec:
  "\<exists>pre nuls post.
     s = pre @ rstrip_nul (str_strip s) @ nuls @ post \<and>
     list_all py_isspace pre \<and> list_all py_isspace post \<and> list_all (\<lambda>c. c = CHR 0x00) nuls \<and>
     (rstrip_nul (str_strip s) @ nuls = [] \<or>
        \<not> py_isspace (hd (rstrip_nul (str_strip s) @ nuls)) \<and>
        \<not> py_isspace (last (rstrip_nul (str_strip s) @ nuls))) \<and>
     (rstrip_nul (str_strip s) = [] \<or> last (rstrip_nul (str_strip s)) \<noteq> CHR 0x00)"
proof -
  obtain pre post where strip: "s = pre @ str_strip s @ post"
      "list_all py_isspace pre" "list_all py_isspace post"
    using str_strip_between_whitespace [of s] by blast
  obtain nuls where nuls: "str_strip s = rstrip_nul (str_strip s) @ nuls"
      "list_all (\<lambda>c. c = CHR 0x00) nuls"
    using rstrip_nul_split [of "str_strip s"] by blast
  have ends: "rstrip_nul (str_strip s) @ nuls = [] \<or>
        \<not> py_isspace (hd (rstrip_nul (str_strip s) @ nuls)) \<and>
        \<not> py_isspace (last (rstrip_nul (str_strip s) @ nuls))"
    using str_strip_ends [of s] nuls(1) by (cases "str_strip s = []") auto
  have last: "rstrip_nul (str_strip s) = [] \<or> last (rstrip_nul (str_strip s)) \<noteq> CHR 0x00"
    using rstrip_nul_last [of "str_strip s"] by blast
  have "s = pre @ rstrip_nul (str_strip s) @ nuls @ post"
    using strip(1) nuls(1) by (metis append.assoc)
  with strip(2,3) nuls(2) ends last show ?thesis by blast
qed

lemma map_result_map:
  "(\<And>x. x \<in> set xs \<Longrightarrow> f (h x) = Inr (g x)) \<Longrightarrow> map_result f (map h xs) = Inr (map g xs)"
  by (induction xs) simp_all

lemma np_vectorize_strip:
  assumes "0 < size_of S"
  shows "np_vectorize str_strip_cell (map_ndarray Str S)
         = Inr (map_ndarray (\<lambda>s. rstrip_nul (str_strip s)) S)"
proof -
  have inner: "map_result str_strip_cell (map Str r) = Inr (map str_strip r)" for r
    by (rule map_result_map) simp
  have "map_result (map_result str_strip_cell) (map (map Str) (rows S))
        = Inr (map (map str_strip) (rows S))"
    by (rule map_result_map) (rule inner)
  then show ?thesis
    using assms by (simp add: np_vectorize_def map_ndarray_def size_of_def shape0_def comp_def)
qed

lemma no_string_in_rows_of_strings:
  assumes "\<not> list_ex (list_ex is_str) (map (map Str) rs)"
  shows "map (map f) rs = rs"
proof -
  have empty: "r = []" if "r \<in> set rs" for r
    using assms that by (cases r) (auto simp: list_ex_iff)
  show ?thesis
  proof (rule map_idI)
    fix r assume "r \<in> set rs"
    then have "r = []" by (rule empty)
    then show "map f r = r" by simp
  qed
qed

lemma np_array_list_of_strings:
  assumes "np_array (PyList (map (map Str) rs)) = Some (map_ndarray Str S)"
  shows "rows S = map (map rstrip_nul) rs"
proof -
  have inj: "inj (map (map Str))"
    by (intro inj_mapI) (simp add: inj_on_def)
  show ?thesis
  proof (cases "list_ex (list_ex is_str) (map (map Str) rs)")
    case True
    then have "map (map Str) (rows S) = map (map np_str) (map (map Str) rs)"
      using assms by (simp add: np_array_def map_ndarray_def split: if_splits)
    then have "map (map Str) (rows S) = map (map Str) (map (map rstrip_nul) rs)"
      by (simp add: comp_def)
    then show ?thesis by (rule injD [OF inj])
  next
    case False
    then have "map (map Str) (rows S) = map (map Str) rs"
      using assms by (simp add: np_array_def map_ndarray_def split: if_splits)
    then have "rows S = rs" by (rule injD [OF inj])
    then show ?thesis
      using no_string_in_rows_of_strings [OF False, of rstrip_nul] by simp
  qed
qed

text \<open>
  C5, as the specification states it, fails in two ways.  On an array without
  entries \<open>np.vectorize\<close>, which must call \<open>str.strip\<close> on a first entry to find the
  output type, raises ValueError: an array of strings of shape \<open>(0, 2)\<close>.  And the
  array of strings that holds the results drops trailing NULs, which are not
  whitespace: the entry \<open>a\<close>, NUL, space comes back as \<open>a\<close>, not as \<open>a\<close>, NUL.
\<close>

theorem strip_raises_or_drops_nul:
  "\<forall>np.
     snd (StripString_transform np StripString (Ndarray \<lparr>shape1 = 2, rows = []\<rparr>)) = Inl ValueError \<and>
     \<not> py_isspace (CHR 0x00) \<and>
     snd (StripString_transform np StripString
            (Ndarray \<lparr>shape1 = 1, rows = [[Str [CHR ''a'', CHR 0x00, CHR '' '']]]\<rparr>))
       = Inr \<lparr>shape1 = 1, rows = [[''a'']]\<rparr>"
proof (intro allI conjI)
  fix np
  show "snd (StripString_transform np StripString (Ndarray \<lparr>shape1 = 2, rows = []\<rparr>))
        = Inl ValueError"
    by (simp add: StripString_transform_def np_array_def np_vectorize_def size_of_def shape0_def)
  show "\<not> py_isspace (CHR 0x00)"
    by (simp add: py_isspace_def)
  have "np_vectorize str_strip_cell \<lparr>shape1 = 1, rows = [[Str [CHR ''a'', CHR 0x00, CHR '' '']]]\<rparr>
        = Inr \<lparr>shape1 = 1, rows = [[''a'']]\<rparr>"
    by code_simp
  then show "snd (StripString_transform np StripString
            (Ndarray \<lparr>shape1 = 1, rows = [[Str [CHR ''a'', CHR 0x00, CHR '' '']]]\<rparr>))
       = Inr \<lparr>shape1 = 1, rows = [[''a'']]\<rparr>"
    by (simp add: StripString_transform_def np_array_def)
qed

text \<open>
  C5, amended: let \<open>S\<close> be the strings of the array \<open>np.array\<close> makes of an input \<open>X\<close> of
  strings: the entries of \<open>X\<close> when \<open>X\<close> is an array, the entries of \<open>X\<close> without their
  trailing NULs when \<open>X\<close> is a list of rows.  If \<open>S\<close> has at least one entry,
  \<open>StripString.transform(X)\<close> returns an array of the same shape in which entry
  \<open>(i, j)\<close> is \<open>S[i][j]\<close> with its leading and trailing whitespace removed and then,
  as the result is stored in an array of strings, its trailing NULs dropped; nothing
  else of an entry is changed.
\<close>

theorem strip_string_trims_every_entry:
  assumes "np_array X = Some (map_ndarray Str S)" and "0 < size_of S"
  shows "\<exists>out. snd (StripString_transform np self X) = Inr out \<and>
           shape0 out = shape0 S \<and> shape1 out = shape1 S \<and>
           map length (rows out) = map length (rows S) \<and>
           (\<forall>i < shape0 S. \<forall>j < length (rows S ! i).
              rows out ! i ! j = rstrip_nul (str_strip (rows S ! i ! j)) \<and>
              (\<exists>pre nuls post.
                  rows S ! i ! j = pre @ rows out ! i ! j @ nuls @ post \<and>
                  list_all py_isspace pre \<and> list_all py_isspace post \<and>
                  list_all (\<lambda>c. c = CHR 0x00) nuls \<and>
                  (rows out ! i ! j @ nuls = [] \<or>
                     \<not> py_isspace (hd (rows out ! i ! j @ nuls)) \<and>
                     \<not> py_isspace (last (rows out ! i ! j @ nuls))) \<and>
                  (rows out ! i ! j = [] \<or> last (rows out ! i ! j) \<noteq> CHR 0x00))) \<and>
           (\<forall>B. X = Ndarray B \<longrightarrow> B = map_ndarray Str S) \<and>
           (\<forall>rs. X = PyList (map (map Str) rs) \<longrightarrow> rows S = map (map rstrip_nul) rs)"
proof -
  let ?out = "map_ndarray (\<lambda>s. rstrip_nul (str_strip s)) S"
  have "0 < size_of (map_ndarray Str S)"
    using assms(2) by (simp add: size_of_def shape0_def map_ndarray_def)
  then have ret: "snd (StripString_transform np self X) = Inr ?out"
    using assms by (simp add: StripString_transform_def np_vectorize_strip)
  have shape: "shape0 ?out = shape0 S" "shape1 ?out = shape1 S"
      "map length (rows ?out) = map length (rows S)"
    by (simp_all add: map_ndarray_def shape0_def comp_def)
  have entries: "\<forall>i < shape0 S. \<forall>j < length (rows S ! i).
              rows ?out ! i ! j = rstrip_nul (str_strip (rows S ! i ! j)) \<and>
              (\<exists>pre nuls post.
                  rows S ! i ! j = pre @ rows ?out ! i ! j @ nuls @ post \<and>
                  list_all py_isspace pre \<and> list_all py_isspace post \<and>
                  list_all (\<lambda>c. c = CHR 0x00) nuls \<and>
                  (rows ?out ! i ! j @ nuls = [] \<or>
                     \<not> py_isspace (hd (rows ?out ! i ! j @ nuls)) \<and>
                     \<not> py_isspace (last (rows ?out ! i ! j @ nuls))) \<and>
                  (rows ?out ! i ! j = [] \<or> last (rows ?out ! i ! j) \<noteq> CHR 0x00))"
  proof (intro allI impI)
    fix i j assume i: "i < shape0 S" and j: "j < length (rows S ! i)"
    have at: "rows ?out ! i ! j = rstrip_nul (str_strip (rows S ! i ! j))"
      using i j by (simp add: map_ndarray_def shape0_def)
    show "rows ?out ! i ! j = rstrip_nul (str_strip (rows S ! i ! j)) \<and>
              (\<exists>pre nuls post.
                  rows S ! i ! j = pre @ rows ?out ! i ! j @ nuls @ post \<and>
                  list_all py_isspace pre \<and> list_all py_isspace post \<and>
                  list_all (\<lambda>c. c = CHR 0x00) nuls \<and>
                  (rows ?out ! i ! j @ nuls = [] \<or>
                     \<not> py_isspace (hd (rows ?out ! i ! j @ nuls)) \<and>
                     \<not> py_isspace (last (rows ?out ! i ! j @ nuls))) \<and>
                  (rows ?out ! i ! j = [] \<or> last (rows ?out ! i ! j) \<noteq> CHR 0x00))"
      unfolding at using stored_strip_spec [of "rows S ! i ! j"] by blast
  qed
  have arr: "\<forall>B. X = Ndarray B \<longrightarrow> B = map_ndarray Str S"
    using assms(1) by (auto simp: np_array_def)
  have lst: "\<forall>rs. X = PyList (map (map Str) rs) \<longrightarrow> rows S = map (map rstrip_nul) rs"
    using assms(1) np_array_list_of_strings by blast
  show ?thesis
    using ret shape entries arr lst by blast
qed

theorem strip_string_trims_every_entry_witness:
  "np_array (PyList [[Str '' State-gov'', Str '' Bachelors ''], [Str [CHR ''a'', CHR 0x00, CHR '' ''], Str ''  '']])
     = Some (map_ndarray Str
               \<lparr>shape1 = 2, rows = [['' State-gov'', '' Bachelors ''], [[CHR ''a'', CHR 0x00, CHR '' ''], ''  '']]\<rparr>) \<and>
   0 < size_of \<lparr>shape1 = 2, rows = [['' State-gov'', '' Bachelors ''], [[CHR ''a'', CHR 0x00, CHR '' ''], ''  '']]\<rparr> \<and>
   snd (StripString_transform numpy_that_raises StripString
          (PyList [[Str '' State-gov'', Str '' Bachelors ''], [Str [CHR ''a'', CHR 0x00, CHR '' ''], Str ''  '']]))
     = Inr \<lparr>shape1 = 2, rows = [[''State-gov'', ''Bachelors''], [''a'', []]]\<rparr>"
proof -
  let ?X = "PyList [[Str '' State-gov'', Str '' Bachelors ''], [Str [CHR ''a'', CHR 0x00, CHR '' ''], Str ''  '']]"
  let ?S = "\<lparr>shape1 = 2, rows = [['' State-gov'', '' Bachelors ''], [[CHR ''a'', CHR 0x00, CHR '' ''], ''  '']]\<rparr>"
  have arr: "np_array ?X = Some (map_ndarray Str ?S)"
    by (simp add: np_array_def map_ndarray_def rstrip_nul_def)
  have pos: "0 < size_of ?S" by (simp add: size_of_def shape0_def)
  have run: "snd (StripString_transform numpy_that_raises StripString ?X)
             = Inr \<lparr>shape1 = 2, rows = [[''State-gov'', ''Bachelors''], [''a'', []]]\<rparr>"
    by code_simp
  obtain out where "snd (StripString_transform numpy_that_raises StripString ?X) = Inr out"
    using strip_string_trims_every_entry [OF arr pos, where np = numpy_that_raises and self = StripString]
    by blast
  with run arr pos show ?thesis by simp
qed

section \<open>The labels\<close>

lemma income_level_index: "index_of ''income-level'' COLUMNS = Some 14"
  by (simp add: COLUMNS_def)

text \<open>
  C10: for the records of the training frame, one cell per column label, the entry of
  \<open>train_labels\<close> for a record is True if and only if the record's cell under
  \<open>income-level\<close> (the cell at position 14) is exactly the string \<open>>50K\<close> with one
  leading space.  In particular the cells \<open>>50K\<close> without the space and \<open>>50K.\<close> with
  the space and a trailing period give False: the label column is not trimmed.
\<close>

theorem train_labels_exact_string:
  assumes "list_all (\<lambda>r. length r = length COLUMNS) records"
  shows "\<exists>labels. train_labels records = Inr labels \<and> length labels = length records \<and>
           COLUMNS ! 14 = ''income-level'' \<and>
           (\<forall>i < length records.
              (labels ! i \<longleftrightarrow> records ! i ! 14 = Str '' >50K'') \<and>
              (records ! i ! 14 = Str ''>50K'' \<longrightarrow> \<not> labels ! i) \<and>
              (records ! i ! 14 = Str '' >50K.'' \<longrightarrow> \<not> labels ! i))"
proof -
  let ?labels = "map (\<lambda>v. v = Str '' >50K'') (map (\<lambda>r. r ! 14) records)"
  have run: "train_labels records = Inr ?labels"
    by (simp add: train_labels_def df_getitem_def raw_training_data_def income_level_index)
  have label: "COLUMNS ! 14 = ''income-level''"
    by (simp add: COLUMNS_def)
  have "\<forall>i < length records.
          (?labels ! i \<longleftrightarrow> records ! i ! 14 = Str '' >50K'') \<and>
          (records ! i ! 14 = Str ''>50K'' \<longrightarrow> \<not> ?labels ! i) \<and>
          (records ! i ! 14 = Str '' >50K.'' \<longrightarrow> \<not> ?labels ! i)"
    by simp
  with run label show ?thesis by force
qed

theorem train_labels_exact_string_witness:
  "list_all (\<lambda>r. length r = length COLUMNS)
     [[Num 39, Str '' State-gov'', Num 77516, Str '' Bachelors'', Num 13, Str '' Never-married'',
       Str '' Adm-clerical'', Str '' Not-in-family'', Str '' White'', Str '' Male'', Num 2174,
       Num 0, Num 40, Str '' United-States'', Str '' <=50K''],
      [Num 52, Str '' Self-emp-not-inc'', Num 209642, Str '' HS-grad'', Num 9,
       Str '' Married-civ-spouse'', Str '' Exec-managerial'', Str '' Husband'', Str '' White'',
       Str '' Male'', Num 0, Num 0, Num 45, Str '' United-States'', Str '' >50K''],
      [Num 31, Str '' Private'', Num 45781, Str '' Masters'', Num 14, Str '' Never-married'',
       Str '' Prof-specialty'', Str '' Not-in-family'', Str '' White'', Str '' Female'', Num 14084,
       Num 0, Num 50, Str '' United-States'', Str ''>50K'']] \<and>
   train_labels
     [[Num 39, Str '' State-gov'', Num 77516, Str '' Bachelors'', Num 13, Str '' Never-married'',
       Str '' Adm-clerical'', Str '' Not-in-family'', Str '' White'', Str '' Male'', Num 2174,
       Num 0, Num 40, Str '' United-States'', Str '' <=50K''],
      [Num 52, Str '' Self-emp-not-inc'', Num 209642, Str '' HS-grad'', Num 9,
       Str '' Married-civ-spouse'', Str '' Exec-managerial'', Str '' Husband'', Str '' White'',
       Str '' Male'', Num 0, Num 0, Num 45, Str '' United-States'', Str '' >50K''],
      [Num 31, Str '' Private'', Num 45781, Str '' Masters'', Num 14, Str '' Never-married'',
       Str '' Prof-specialty'', Str '' Not-in-family'', Str '' White'', Str '' Female'', Num 14084,
       Num 0, Num 50, Str '' United-States'', Str ''>50K'']]
   = Inr [False, True, False]"
proof -
  let ?records =
    "[[Num 39, Str '' State-gov'', Num 77516, Str '' Bachelors'', Num 13, Str '' Never-married'',
       Str '' Adm-clerical'', Str '' Not-in-family'', Str '' White'', Str '' Male'', Num 2174,
       Num 0, Num 40, Str '' United-States'', Str '' <=50K''],
      [Num 52, Str '' Self-emp-not-inc'', Num 209642, Str '' HS-grad'', Num 9,
       Str '' Married-civ-spouse'', Str '' Exec-managerial'', Str '' Husband'', Str '' White'',
       Str '' Male'', Num 0, Num 0, Num 45, Str '' United-States'', Str '' >50K''],
      [Num 31, Str '' Private'', Num 45781, Str '' Masters'', Num 14, Str '' Never-married'',
       Str '' Prof-specialty'', Str '' Not-in-family'', Str '' White'', Str '' Female'', Num 14084,
       Num 0, Num 50, Str '' United-States'', Str ''>50K'']]"
  have full: "list_all (\<lambda>r. length r = length COLUMNS) ?records"
    by (simp add: COLUMNS_def)
  obtain labels where labels: "train_labels ?records = Inr labels" "length labels = length ?records"
      "\<forall>i < length ?records. labels ! i \<longleftrightarrow> ?records ! i ! 14 = Str '' >50K''"
    using train_labels_exact_string [OF full] by blast
  have run: "train_labels ?records = Inr [False, True, False]"
    by code_simp
  from labels(1) run have "labels = [False, True, False]" by simp
  with labels(1) full show ?thesis by simp
qed


text \<open>The features handed to the pipeline: the 14 cells before the label, for every record.\<close>

lemma raw_features_drops_label:
  assumes "list_all (\<lambda>r. length r = length COLUMNS) records"
  shows "raw_features records = Inr \<lparr>shape1 = 14, rows = map (take 14) records\<rparr>"
proof -
  have len: "length COLUMNS = 15" by (simp add: COLUMNS_def)
  have "\<forall>r\<in>set records. length r \<le> 15"
    using assms by (simp add: list_all_iff len)
  then show ?thesis
    by (simp add: raw_features_def df_drop_values_def raw_training_data_def income_level_index len)
qed

section \<open>The pipeline, step by step\<close>























end
